theory Spec2Isabelle
  imports Complex_Main "HOL-Library.Log_Nat" "HOL-Library.Multiset"
begin

section \<open>Numbers: Python floats\<close>

text \<open>
  Every number of \<^verbatim>\<open>app.py\<close> is a Python float or a numpy \<^verbatim>\<open>float64\<close>, that is an
  IEEE-754 binary64 value. The finite ones are rational numbers, so a value is a
  \<^typ>\<open>real\<close> here, and an arithmetic operation of the source is the exact operation
  followed by a rounding. The rounding is chosen by a mode:
  \<^item> \<open>Double\<close>: round to nearest, ties to even, with 53 significant bits, which is what
    the program executes;
  \<^item> \<open>Exact\<close>: no rounding, the arithmetic of the real numbers in which the
    specification reasons.
  Comparisons are exact in both modes. Not modelled: NaN, the infinities, overflow and
  subnormal numbers (the exponent range is unbounded here).
\<close>

datatype arith = Exact | Double

definition ilog2 :: "real \<Rightarrow> int" where
  \<comment> \<open>for \<open>0 < x\<close>, the integer \<open>e\<close> with \<open>2^e \<le> x < 2^(e+1)\<close>\<close>
  "ilog2 x = (if 1 \<le> x then bitlen \<lfloor>x\<rfloor> - 1 else - bitlen (\<lceil>1 / x\<rceil> - 1))"

definition round_even :: "real \<Rightarrow> int" where
  "round_even x =
     (let f = \<lfloor>x\<rfloor>; r = x - of_int f
      in if r < 1 / 2 then f else if 1 / 2 < r then f + 1 else if even f then f else f + 1)"

definition round_double :: "real \<Rightarrow> real" where
  "round_double x =
     (if x = 0 then 0
      else let u = 2 powi (ilog2 \<bar>x\<bar> - 52) in of_int (round_even (x / u)) * u)"

fun rnd :: "arith \<Rightarrow> real \<Rightarrow> real" where
  "rnd Exact x = x"
| "rnd Double x = round_double x"

definition fadd :: "arith \<Rightarrow> real \<Rightarrow> real \<Rightarrow> real" where
  "fadd a x y = rnd a (x + y)"

definition fsub :: "arith \<Rightarrow> real \<Rightarrow> real \<Rightarrow> real" where
  "fsub a x y = rnd a (x - y)"

definition fmul :: "arith \<Rightarrow> real \<Rightarrow> real \<Rightarrow> real" where
  "fmul a x y = rnd a (x * y)"

definition fdiv :: "arith \<Rightarrow> real \<Rightarrow> real \<Rightarrow> real" where
  "fdiv a x y = rnd a (x / y)"

section \<open>Errors\<close>

text \<open>
  The two Python exceptions the modelled code can raise: \<^verbatim>\<open>IndexError\<close> from
  \<^verbatim>\<open>y_grid[0]\<close> on an empty array, \<^verbatim>\<open>ValueError\<close> from \<^verbatim>\<open>np.interp\<close> on empty or
  mismatched sample arrays and from \<^verbatim>\<open>Series.idxmax\<close> on an empty series.
\<close>

datatype error = IndexError | ValueError

definition bind_err :: "error + 'a \<Rightarrow> ('a \<Rightarrow> error + 'b) \<Rightarrow> error + 'b" where
  "bind_err m f = (case m of Inl e \<Rightarrow> Inl e | Inr v \<Rightarrow> f v)"

section \<open>The probability table\<close>

text \<open>A row of the data frame \<^verbatim>\<open>df_prob\<close>; a data frame is the list of its rows.\<close>

record fila_prob =
  pkm :: real
  pr_rv :: real
  pr_mix :: real
  pr_int :: real

text \<open>
  \<^verbatim>\<open>df_prob.sort_values("pkm")\<close> sorts with pandas' default \<^verbatim>\<open>kind="quicksort"\<close>, which
  pandas and numpy document as not stable: the order of rows with equal \<^verbatim>\<open>pkm\<close> is not
  determined by the call. The sort is therefore a parameter of the model, and
  \<open>is_sort_values srt df\<close> says what the library promises of it on \<open>df\<close>: its result
  is a rearrangement of the rows of \<open>df\<close>, ascending in \<^verbatim>\<open>pkm\<close>.
\<close>

definition is_sort_values :: "(fila_prob list \<Rightarrow> fila_prob list) \<Rightarrow> fila_prob list \<Rightarrow> bool" where
  "is_sort_values srt df \<longleftrightarrow> sorted (map pkm (srt df)) \<and> mset (srt df) = mset df"

text \<open>
  Two sorts that keep that promise: the stable one (\<^verbatim>\<open>kind="stable"\<close>), and one that
  puts rows of equal \<^verbatim>\<open>pkm\<close> in the reverse of their input order.
\<close>

definition sort_values_stable :: "fila_prob list \<Rightarrow> fila_prob list" where
  "sort_values_stable df = sort_key pkm df"


text \<open>
  \<^verbatim>\<open>drop_duplicates(subset=["pkm"])\<close>, with pandas' default \<^verbatim>\<open>keep="first"\<close>: a row is
  dropped when its \<^verbatim>\<open>pkm\<close> has been seen in an earlier row.
\<close>

fun drop_seen :: "real list \<Rightarrow> fila_prob list \<Rightarrow> fila_prob list" where
  "drop_seen seen [] = []"
| "drop_seen seen (r # rs) =
     (if pkm r \<in> set seen then drop_seen seen rs else r # drop_seen (pkm r # seen) rs)"

definition drop_duplicates :: "fila_prob list \<Rightarrow> fila_prob list" where
  "drop_duplicates df = drop_seen [] df"

text \<open>Line 87 of \<^verbatim>\<open>app.py\<close>: the table the engine interpolates in.\<close>

definition tabla_ordenada :: "(fila_prob list \<Rightarrow> fila_prob list) \<Rightarrow> fila_prob list \<Rightarrow> fila_prob list" where
  "tabla_ordenada sort_values df_prob = drop_duplicates (sort_values df_prob)"

section \<open>Interpolation\<close>

text \<open>
  \<^verbatim>\<open>np.interp\<close> finds, for a query inside the range of the sample points, the index
  \<open>j\<close> with \<open>xp[j] \<le> x < xp[j+1]\<close>. Its search starts with the two range checks below;
  then, for at most four sample points, it is the scan
  \<^verbatim>\<open>for (i = 1; i < len && key >= arr[i]; ++i); return i - 1;\<close>
  and for more points a bisection that returns the same index when \<open>xp\<close> is ascending.
  The model is the scan.
\<close>

function scan :: "real \<Rightarrow> real list \<Rightarrow> nat \<Rightarrow> nat" where
  "scan key arr i = (if i < length arr \<and> arr ! i \<le> key then scan key arr (Suc i) else i)"
  by pat_completeness auto
termination
  by (relation "measure (\<lambda>(key, arr, i). length arr - i)") auto

declare scan.simps [simp del]

definition binary_search_with_guess :: "real \<Rightarrow> real list \<Rightarrow> int" where
  "binary_search_with_guess key arr =
     (let len = length arr
      in if arr ! (len - 1) < key then int len
         else if key < arr ! 0 then - 1
         else int (scan key arr 1) - 1)"

text \<open>
  One query of \<^verbatim>\<open>np.interp\<close>, for \<open>dx\<close> and \<open>dy\<close> of the same length, at least 1.
  The branches of the library that repair a NaN result are left out: no value is NaN
  here.
\<close>

definition interp_point :: "arith \<Rightarrow> real list \<Rightarrow> real list \<Rightarrow> real \<Rightarrow> real \<Rightarrow> real \<Rightarrow> real" where
  "interp_point a dx dy lval rval x_val =
     (if length dx = 1 then
        (if x_val < dx ! 0 then lval else if dx ! 0 < x_val then rval else dy ! 0)
      else
        let j = binary_search_with_guess x_val dx
        in if j = - 1 then lval
           else if j = int (length dx) then rval
           else if j = int (length dx) - 1 then dy ! nat j
           else if dx ! nat j = x_val then dy ! nat j
           else
             let slope = fdiv a (fsub a (dy ! (nat j + 1)) (dy ! nat j))
                                (fsub a (dx ! (nat j + 1)) (dx ! nat j))
             in fadd a (fmul a slope (fsub a x_val (dx ! nat j))) (dy ! nat j))"

definition np_interp ::
  "arith \<Rightarrow> real list \<Rightarrow> real list \<Rightarrow> real list \<Rightarrow> real \<Rightarrow> real \<Rightarrow> error + real list" where
  "np_interp a x xp fp left right =
     (if xp = [] then Inl ValueError
      else if length fp \<noteq> length xp then Inl ValueError
      else Inr (map (interp_point a xp fp left right) x))"

definition interp_clamp :: "arith \<Rightarrow> real list \<Rightarrow> real list \<Rightarrow> real list \<Rightarrow> error + real list" where
  "interp_clamp a x_grid y_grid xq =
     (if y_grid = [] then Inl IndexError
      else np_interp a xq x_grid y_grid (y_grid ! 0) (last y_grid))"

section \<open>The demand and revenue engine\<close>

text \<open>A row of the data frame \<^verbatim>\<open>out\<close>, one field per column.\<close>

record resultado =
  tarifa_usd_km_livianos :: real
  tarifa_usd_km_camiones :: real
  distancia_promedio_km :: real
  pr_rv_liv :: real
  Q_rv_liv_veh_dia :: real
  pr_mix_liv :: real
  Q_mix_liv_veh_dia :: real
  pr_int_liv :: real
  Q_int_liv_veh_dia :: real
  pr_rv_cam :: real
  Q_rv_cam_veh_dia :: real
  pr_mix_cam :: real
  Q_mix_cam_veh_dia :: real
  pr_int_cam :: real
  Q_int_cam_veh_dia :: real
  recaud_liv_usd_dia :: real
  recaud_cam_usd_dia :: real
  recaud_total_usd_dia :: real
  recaud_liv_usd_anio :: real
  recaud_cam_usd_anio :: real
  recaud_total_usd_anio :: real

text \<open>
  The arithmetic of \<^verbatim>\<open>calcular_resultados\<close> is elementwise on arrays of the length of
  the grid; \<open>fila_out\<close> is that arithmetic at one index: the quantities (lines 107-113),
  the revenue of Ruta Viva per day (lines 130-132) and per year (lines 135-137).
\<close>

definition fila_out ::
  "arith \<Rightarrow> real \<Rightarrow> real \<Rightarrow> real \<Rightarrow> real \<Rightarrow> real \<Rightarrow> real \<Rightarrow> real \<Rightarrow> real \<Rightarrow> real \<Rightarrow> real \<Rightarrow> real
     \<Rightarrow> resultado" where
  "fila_out a tpda_liv tpda_cam dist_km p_liv p_cam liv_rv liv_mix liv_int cam_rv cam_mix cam_int =
     (let q_rv_liv = fmul a tpda_liv liv_rv;
          q_mix_liv = fmul a tpda_liv liv_mix;
          q_int_liv = fmul a tpda_liv liv_int;
          q_rv_cam = fmul a tpda_cam cam_rv;
          q_mix_cam = fmul a tpda_cam cam_mix;
          q_int_cam = fmul a tpda_cam cam_int;
          r_liv_dia = fmul a q_rv_liv (fmul a p_liv dist_km);
          r_cam_dia = fmul a q_rv_cam (fmul a p_cam dist_km);
          r_total_dia = fadd a r_liv_dia r_cam_dia
      in \<lparr> tarifa_usd_km_livianos = p_liv,
           tarifa_usd_km_camiones = p_cam,
           distancia_promedio_km = dist_km,
           pr_rv_liv = liv_rv, Q_rv_liv_veh_dia = q_rv_liv,
           pr_mix_liv = liv_mix, Q_mix_liv_veh_dia = q_mix_liv,
           pr_int_liv = liv_int, Q_int_liv_veh_dia = q_int_liv,
           pr_rv_cam = cam_rv, Q_rv_cam_veh_dia = q_rv_cam,
           pr_mix_cam = cam_mix, Q_mix_cam_veh_dia = q_mix_cam,
           pr_int_cam = cam_int, Q_int_cam_veh_dia = q_int_cam,
           recaud_liv_usd_dia = r_liv_dia,
           recaud_cam_usd_dia = r_cam_dia,
           recaud_total_usd_dia = r_total_dia,
           recaud_liv_usd_anio = fmul a r_liv_dia 365,
           recaud_cam_usd_anio = fmul a r_cam_dia 365,
           recaud_total_usd_anio = fmul a r_total_dia 365 \<rparr>)"

definition calcular_resultados ::
  "arith \<Rightarrow> (fila_prob list \<Rightarrow> fila_prob list) \<Rightarrow> fila_prob list \<Rightarrow> real list
     \<Rightarrow> real \<Rightarrow> real \<Rightarrow> real \<Rightarrow> real \<Rightarrow> error + resultado list" where
  "calcular_resultados a sort_values df_prob tarifa_grid_liv tpda_liv tpda_cam mult_cam dist_km =
     (let df = tabla_ordenada sort_values df_prob;
          x = map pkm df;
          rv = map pr_rv df;
          mix = map pr_mix df;
          inte = map pr_int df;
          p_liv = tarifa_grid_liv;
          p_cam = map (\<lambda>t. fmul a t mult_cam) tarifa_grid_liv
      in bind_err (interp_clamp a x rv p_liv) (\<lambda>liv_rv.
         bind_err (interp_clamp a x mix p_liv) (\<lambda>liv_mix.
         bind_err (interp_clamp a x inte p_liv) (\<lambda>liv_int.
         bind_err (interp_clamp a x rv p_cam) (\<lambda>cam_rv.
         bind_err (interp_clamp a x mix p_cam) (\<lambda>cam_mix.
         bind_err (interp_clamp a x inte p_cam) (\<lambda>cam_int.
         Inr (map (\<lambda>i. fila_out a tpda_liv tpda_cam dist_km (p_liv ! i) (p_cam ! i)
                          (liv_rv ! i) (liv_mix ! i) (liv_int ! i)
                          (cam_rv ! i) (cam_mix ! i) (cam_int ! i))
                  [0..<length p_liv]))))))))"

section \<open>The tariff that maximises revenue\<close>

text \<open>
  Lines 279-282 of \<^verbatim>\<open>app.py\<close>. \<^verbatim>\<open>Series.idxmax\<close> raises \<^verbatim>\<open>ValueError\<close> on an empty
  series; otherwise it returns the label of the first maximum, found by a loop that
  replaces the running maximum only by a strictly greater value. The index of
  \<^verbatim>\<open>resultados\<close> is \<open>0, 1, 2, ...\<close>, so the label is the position.
\<close>

fun argmax_loop :: "real list \<Rightarrow> nat \<Rightarrow> real \<Rightarrow> nat \<Rightarrow> nat" where
  "argmax_loop [] i mp max_ind = max_ind"
| "argmax_loop (v # vs) i mp max_ind =
     (if mp < v then argmax_loop vs (Suc i) v i else argmax_loop vs (Suc i) mp max_ind)"

definition idxmax :: "real list \<Rightarrow> error + nat" where
  "idxmax s = (case s of [] \<Rightarrow> Inl ValueError | v # vs \<Rightarrow> Inr (argmax_loop vs 1 v 0))"

definition recaudacion_maxima :: "resultado list \<Rightarrow> error + real \<times> real \<times> real" where
  "recaudacion_maxima resultados =
     bind_err (idxmax (map recaud_total_usd_dia resultados)) (\<lambda>idx_max.
       Inr (tarifa_usd_km_livianos (resultados ! idx_max),
            recaud_total_usd_dia (resultados ! idx_max),
            recaud_total_usd_anio (resultados ! idx_max)))"

section \<open>Example data\<close>

text \<open>
  The table of the specification's end-to-end example: breakpoints 0.0, 0.5 and 0.8 with
  \<^verbatim>\<open>pr_rv\<close> 0.46, 0.02 and 0.00; the other two columns are those of the base table at
  these breakpoints. A decimal literal of the source denotes the nearest double, so in
  mode \<open>Double\<close> each literal is rounded.
\<close>

definition tabla_ejemplo :: "arith \<Rightarrow> fila_prob list" where
  "tabla_ejemplo a =
     [\<lparr>pkm = 0, pr_rv = rnd a (46 / 100), pr_mix = rnd a (25 / 100), pr_int = rnd a (28 / 100)\<rparr>,
      \<lparr>pkm = rnd a (5 / 10), pr_rv = rnd a (2 / 100), pr_mix = rnd a (67 / 100),
        pr_int = rnd a (31 / 100)\<rparr>,
      \<lparr>pkm = rnd a (8 / 10), pr_rv = 0, pr_mix = rnd a (69 / 100), pr_int = rnd a (31 / 100)\<rparr>]"


text \<open>
  Three result rows, built by the engine's own row arithmetic: tariffs 0, 0.1 and 0.2,
  with total revenue per day 0, 2 and 2. The maximum is attained twice.
\<close>

definition filas_empate :: "resultado list" where
  "filas_empate =
     [fila_out Exact 100 0 1 0 0 (3 / 10) 0 0 0 0 0,
      fila_out Exact 100 0 1 (1 / 10) (1 / 10) (2 / 10) 0 0 0 0 0,
      fila_out Exact 100 0 1 (2 / 10) (2 / 10) (1 / 10) 0 0 0 0 0]"

section \<open>Evaluation and basic facts\<close>

text \<open>The rules that evaluate binary64 arithmetic on numerals.\<close>

lemmas eval_double = fadd_def fsub_def fmul_def fdiv_def round_double_def ilog2_def
  round_even_def compute_bitlen Let_def


section \<open>The search of the interpolation\<close>

lemma scan_step: "i < length arr \<Longrightarrow> arr ! i \<le> key \<Longrightarrow> scan key arr i = scan key arr (Suc i)"
  by (subst scan.simps) simp

lemma scan_done: "\<not> (i < length arr \<and> arr ! i \<le> key) \<Longrightarrow> scan key arr i = i"
  by (subst scan.simps) auto

lemma scan_bounds: "i \<le> length arr \<Longrightarrow> i \<le> scan key arr i \<and> scan key arr i \<le> length arr"
proof (induction key arr i rule: scan.induct)
  case (1 key arr i)
  show ?case
  proof (cases "i < length arr \<and> arr ! i \<le> key")
    case True
    then have "Suc i \<le> length arr" by simp
    from "1.IH" [OF True this] True show ?thesis
      by (simp add: scan_step)
  next
    case False
    then show ?thesis using "1.prems" by (simp add: scan_done)
  qed
qed

lemma scan_below: "i \<le> k \<Longrightarrow> k < scan key arr i \<Longrightarrow> arr ! k \<le> key"
proof (induction key arr i rule: scan.induct)
  case (1 key arr i)
  show ?case
  proof (cases "i < length arr \<and> arr ! i \<le> key")
    case True
    then have s: "scan key arr i = scan key arr (Suc i)" by (simp add: scan_step)
    show ?thesis
    proof (cases "k = i")
      case True
      with \<open>i < length arr \<and> arr ! i \<le> key\<close> show ?thesis by simp
    next
      case False
      with "1.prems" have "Suc i \<le> k" by simp
      from "1.IH" [OF True this] "1.prems" s show ?thesis by simp
    qed
  next
    case False
    then have "scan key arr i = i" by (rule scan_done)
    with "1.prems" show ?thesis by simp
  qed
qed

lemma scan_stop: "scan key arr i < length arr \<Longrightarrow> key < arr ! scan key arr i"
proof (induction key arr i rule: scan.induct)
  case (1 key arr i)
  show ?case
  proof (cases "i < length arr \<and> arr ! i \<le> key")
    case True
    then have s: "scan key arr i = scan key arr (Suc i)" by (simp add: scan_step)
    from "1.IH" [OF True] "1.prems" s show ?thesis by simp
  next
    case False
    then have "scan key arr i = i" by (rule scan_done)
    with "1.prems" False show ?thesis by auto
  qed
qed

text \<open>On a strictly ascending array the scan for \<open>arr ! k\<close> stops at \<open>k + 1\<close>.\<close>

lemma scan_knot:
  assumes "sorted_wrt (<) arr" "k < length arr" "i \<le> Suc k"
  shows "scan (arr ! k) arr i = Suc k"
proof -
  have b: "i \<le> scan (arr ! k) arr i" "scan (arr ! k) arr i \<le> length arr"
    using scan_bounds [of i arr "arr ! k"] assms by auto
  have "\<not> scan (arr ! k) arr i < Suc k"
  proof
    assume lt: "scan (arr ! k) arr i < Suc k"
    then have "scan (arr ! k) arr i < length arr" using assms by simp
    from scan_stop [OF this] have "arr ! k < arr ! scan (arr ! k) arr i" .
    moreover have "arr ! scan (arr ! k) arr i \<le> arr ! k"
    proof (cases "scan (arr ! k) arr i = k")
      case True then show ?thesis by simp
    next
      case False
      with lt have "scan (arr ! k) arr i < k" by simp
      with assms have "arr ! scan (arr ! k) arr i < arr ! k"
        by (simp add: sorted_wrt_nth_less)
      then show ?thesis by simp
    qed
    ultimately show False by simp
  qed
  moreover have "\<not> Suc k < scan (arr ! k) arr i"
  proof
    assume gt: "Suc k < scan (arr ! k) arr i"
    with assms have "arr ! Suc k \<le> arr ! k" using scan_below [of i "Suc k" "arr ! k" arr] by simp
    moreover have "Suc k < length arr" using gt b by simp
    then have "arr ! k < arr ! Suc k" using assms by (simp add: sorted_wrt_nth_less)
    ultimately show False by simp
  qed
  ultimately show ?thesis by simp
qed

section \<open>Interpolation outside the domain and at its points\<close>

lemma interp_clamp_Inr:
  assumes "x_grid \<noteq> []" "length y_grid = length x_grid"
  shows "interp_clamp a x_grid y_grid xq =
    Inr (map (interp_point a x_grid y_grid (y_grid ! 0) (last y_grid)) xq)"
  using assms by (auto simp: interp_clamp_def np_interp_def)

lemma interp_point_left:
  assumes "dx \<noteq> []" "sorted dx" "q < dx ! 0"
  shows "interp_point a dx dy lval rval q = lval"
proof -
  have "dx ! 0 \<le> dx ! (length dx - 1)"
    using assms by (simp add: sorted_iff_nth_mono)
  with assms have "\<not> dx ! (length dx - 1) < q" by simp
  with assms show ?thesis
    by (simp add: interp_point_def binary_search_with_guess_def)
qed

lemma interp_point_right:
  assumes "dx \<noteq> []" "last dx < q"
  shows "interp_point a dx dy lval rval q = rval"
proof (cases "length dx = 1")
  case True
  then have "last dx = dx ! 0" by (simp add: last_conv_nth assms)
  with True assms show ?thesis by (simp add: interp_point_def)
next
  case False
  with assms show ?thesis
    by (simp add: interp_point_def binary_search_with_guess_def last_conv_nth)
qed

text \<open>
  Claim C2. For a non-empty ascending domain and values of the same length, a query
  strictly below the first domain point is answered by exactly the first value, and a
  query strictly above the last domain point by exactly the last value. No arithmetic is
  involved, so this holds in both modes.
\<close>

theorem interp_clamp_outside:
  assumes "x_grid \<noteq> []" "sorted x_grid" "length y_grid = length x_grid"
  shows "(q < x_grid ! 0 \<longrightarrow> interp_clamp a x_grid y_grid [q] = Inr [y_grid ! 0])
       \<and> (last x_grid < q \<longrightarrow> interp_clamp a x_grid y_grid [q] = Inr [last y_grid])"
  using assms by (simp add: interp_clamp_Inr interp_point_left interp_point_right)

theorem interp_clamp_outside_witness:
  "[0, 1 / 2, 3 / 4] \<noteq> ([] :: real list)
   \<and> sorted [0, 1 / 2, 3 / 4 :: real]
   \<and> length [1 / 2, 1 / 4, 0 :: real] = length [0, 1 / 2, 3 / 4 :: real]
   \<and> (- 1 :: real) < [0, 1 / 2, 3 / 4] ! 0
   \<and> interp_clamp Double [0, 1 / 2, 3 / 4] [1 / 2, 1 / 4, 0] [- 1] = Inr [1 / 2]
   \<and> last [0, 1 / 2, 3 / 4] < (2 :: real)
   \<and> interp_clamp Double [0, 1 / 2, 3 / 4] [1 / 2, 1 / 4, 0] [2] = Inr [0]"
  using interp_clamp_outside [of "[0, 1 / 2, 3 / 4]" "[1 / 2, 1 / 4, 0]" "- 1" Double]
    interp_clamp_outside [of "[0, 1 / 2, 3 / 4]" "[1 / 2, 1 / 4, 0]" 2 Double]
  by simp

lemma interp_point_knot:
  assumes "sorted_wrt (<) dx" "i < length dx"
  shows "interp_point a dx dy lval rval (dx ! i) = dy ! i"
proof (cases "length dx = 1")
  case True
  with assms show ?thesis by (simp add: interp_point_def)
next
  case False
  have "sorted dx" using assms(1) by (simp add: strict_sorted_iff)
  then have "dx ! i \<le> dx ! (length dx - 1)" "dx ! 0 \<le> dx ! i"
    using assms(2) by (simp_all add: sorted_iff_nth_mono)
  then have r: "\<not> dx ! (length dx - 1) < dx ! i" "\<not> dx ! i < dx ! 0" by simp_all
  have "1 \<le> Suc i" by simp
  from scan_knot [OF assms this] have "scan (dx ! i) dx 1 = Suc i" .
  with r have bs: "binary_search_with_guess (dx ! i) dx = int i"
    by (simp add: binary_search_with_guess_def)
  have n: "nat (int i) = i" by simp
  show ?thesis
    unfolding interp_point_def Let_def bs n using False assms(2) by simp
qed

text \<open>
  Claim C3. For a non-empty strictly ascending domain, values of the same length and an
  index \<open>i\<close> of the domain, the interpolation at the single query \<open>x_grid[i]\<close> is
  exactly \<open>y_grid[i]\<close>, in both modes.
\<close>

theorem interp_clamp_knot:
  assumes "x_grid \<noteq> []" "sorted_wrt (<) x_grid" "length y_grid = length x_grid"
    and "i < length x_grid"
  shows "interp_clamp a x_grid y_grid [x_grid ! i] = Inr [y_grid ! i]"
  using assms by (simp add: interp_clamp_Inr interp_point_knot)

theorem interp_clamp_knot_witness:
  "[0, 1 / 2, 3 / 4] \<noteq> ([] :: real list)
   \<and> sorted_wrt (<) [0, 1 / 2, 3 / 4 :: real]
   \<and> length [1 / 2, 1 / 4, 0 :: real] = length [0, 1 / 2, 3 / 4 :: real]
   \<and> (1 :: nat) < length [0, 1 / 2, 3 / 4 :: real]
   \<and> interp_clamp Double [0, 1 / 2, 3 / 4] [1 / 2, 1 / 4, 0] [1 / 2] = Inr [1 / 4]"
  using interp_clamp_knot [of "[0, 1 / 2, 3 / 4]" "[1 / 2, 1 / 4, 0]" 1 Double]
  by simp

section \<open>Interpolation in exact arithmetic\<close>



section \<open>Sorting and dropping duplicates\<close>





lemma drop_seen_distinct:
  "distinct (map pkm rs) \<Longrightarrow> set (map pkm rs) \<inter> set seen = {} \<Longrightarrow> drop_seen seen rs = rs"
  by (induction rs arbitrary: seen) auto



lemma is_sort_values_stable: "is_sort_values sort_values_stable df"
  by (simp add: is_sort_values_def sort_values_stable_def)







section \<open>The rows of the engine\<close>

lemma drop_seen_nonempty: "drop_seen [] (r # rs) \<noteq> []"
  by simp

lemma tabla_ordenada_nonempty:
  assumes "is_sort_values srt df" "df \<noteq> []"
  shows "tabla_ordenada srt df \<noteq> []"
proof -
  from assms have "srt df \<noteq> []" by (auto simp: is_sort_values_def)
  then obtain r rs where "srt df = r # rs" by (cases "srt df") auto
  then show ?thesis by (simp add: tabla_ordenada_def drop_duplicates_def)
qed


lemma calcular_resultados_rows:
  assumes t: "t = tabla_ordenada srt df" "t \<noteq> []"
  shows "calcular_resultados a srt df grid vl vc m d =
    Inr (map (\<lambda>p. fila_out a vl vc d p (fmul a p m)
        (interp_point a (map pkm t) (map pr_rv t) (map pr_rv t ! 0) (last (map pr_rv t)) p)
        (interp_point a (map pkm t) (map pr_mix t) (map pr_mix t ! 0) (last (map pr_mix t)) p)
        (interp_point a (map pkm t) (map pr_int t) (map pr_int t ! 0) (last (map pr_int t)) p)
        (interp_point a (map pkm t) (map pr_rv t) (map pr_rv t ! 0) (last (map pr_rv t)) (fmul a p m))
        (interp_point a (map pkm t) (map pr_mix t) (map pr_mix t ! 0) (last (map pr_mix t)) (fmul a p m))
        (interp_point a (map pkm t) (map pr_int t) (map pr_int t ! 0) (last (map pr_int t)) (fmul a p m)))
      grid)"
proof -
  have x: "map pkm t \<noteq> []" using t by simp
  have l: "length (map pr_rv t) = length (map pkm t)" "length (map pr_mix t) = length (map pkm t)"
    "length (map pr_int t) = length (map pkm t)" by simp_all
  show ?thesis
    unfolding calcular_resultados_def Let_def t(1) [symmetric]
      interp_clamp_Inr [OF x l(1)] interp_clamp_Inr [OF x l(2)] interp_clamp_Inr [OF x l(3)]
      bind_err_def sum.case
    by (rule arg_cong [where f = Inr], rule nth_equalityI) simp_all
qed

text \<open>
  Claim C4. For a non-empty table and a grid of \<open>n\<close> points, \<open>n \<ge> 0\<close>, the engine
  returns exactly \<open>n\<close> rows, and the column of light tariffs of the result is the grid
  itself, so the rows are in the order of the grid; the empty grid gives the empty
  result and no error.
\<close>

theorem calcular_resultados_one_row_per_grid_point:
  assumes "df_prob \<noteq> []" "is_sort_values srt df_prob"
  shows "(\<exists>rows. calcular_resultados a srt df_prob grid tpda_liv tpda_cam mult_cam dist_km = Inr rows
            \<and> length rows = length grid
            \<and> map tarifa_usd_km_livianos rows = grid)
       \<and> calcular_resultados a srt df_prob [] tpda_liv tpda_cam mult_cam dist_km = Inr []"
proof -
  have ne: "tabla_ordenada srt df_prob \<noteq> []"
    using assms by (simp add: tabla_ordenada_nonempty)
  have "map tarifa_usd_km_livianos (map (\<lambda>p. fila_out a vl vc d p (g p) (h1 p) (h2 p) (h3 p) (h4 p) (h5 p) (h6 p)) grid) = grid"
    for vl vc d g h1 h2 h3 h4 h5 h6
    by (induction grid) (simp_all add: fila_out_def Let_def)
  then show ?thesis
    by (simp add: calcular_resultados_rows [OF refl ne])
qed

theorem calcular_resultados_one_row_per_grid_point_witness:
  "tabla_ejemplo Double \<noteq> []
   \<and> is_sort_values sort_values_stable (tabla_ejemplo Double)
   \<and> (\<exists>rows. calcular_resultados Double sort_values_stable (tabla_ejemplo Double)
                [0, 1 / 4, 1 / 2] 1000 0 6 10 = Inr rows
          \<and> length rows = 3
          \<and> map tarifa_usd_km_livianos rows = [0, 1 / 4, 1 / 2])
   \<and> calcular_resultados Double sort_values_stable (tabla_ejemplo Double) [] 1000 0 6 10 = Inr []"
proof -
  have ne: "tabla_ejemplo Double \<noteq> []" by (simp add: tabla_ejemplo_def)
  have srt: "is_sort_values sort_values_stable (tabla_ejemplo Double)"
    by (rule is_sort_values_stable)
  from calcular_resultados_one_row_per_grid_point
    [OF ne srt, of Double "[0, 1 / 4, 1 / 2]" 1000 0 6 10] ne srt
  show ?thesis by (simp add: numeral_3_eq_3)
qed




section \<open>The end-to-end example\<close>

lemma scan_eval:
  "scan key arr i = (if i < length arr \<and> arr ! i \<le> key then scan key arr (Suc i) else i)"
  by (rule scan.simps)

text \<open>A table with strictly ascending breakpoints is left as it is by any sort and by the
  removal of duplicates.\<close>

lemma is_sort_values_strict:
  assumes "is_sort_values srt df" "sorted_wrt (<) (map pkm df)"
  shows "srt df = df"
proof -
  from assms(1) have s: "sorted (map pkm (srt df))" and m: "mset (srt df) = mset df"
    by (simp_all add: is_sort_values_def)
  from assms(2) have s': "sorted (map pkm df)" and d: "distinct (map pkm df)"
    by (simp_all add: strict_sorted_iff)
  have "mset (map pkm (srt df)) = mset (map pkm df)" using m by (metis mset_map)
  from properties_for_sort [OF this s] have "sort (map pkm df) = map pkm (srt df)" .
  moreover have "sort (map pkm df) = map pkm df" using s' by (simp add: sort_key_id_if_sorted)
  ultimately have e: "map pkm (srt df) = map pkm df" by simp
  have "set (srt df) = set df" using m by (metis mset_eq_setD)
  moreover have "inj_on pkm (set df)" using d by (simp add: distinct_map)
  ultimately have "inj_on pkm (set (srt df) \<union> set df)" by simp
  from inj_on_map_eq_map [OF this] e show ?thesis by simp
qed

lemma tabla_ordenada_strict:
  assumes "is_sort_values srt df" "sorted_wrt (<) (map pkm df)"
  shows "tabla_ordenada srt df = df"
proof -
  from assms(2) have "distinct (map pkm df)" by (simp add: strict_sorted_iff)
  then have "drop_seen [] df = df" by (simp add: drop_seen_distinct)
  then show ?thesis
    by (simp add: tabla_ordenada_def drop_duplicates_def is_sort_values_strict [OF assms])
qed



lemma tabla_ejemplo_columns:
  "map pkm (tabla_ejemplo a) = [0, rnd a (5 / 10), rnd a (8 / 10)]"
  "map pr_rv (tabla_ejemplo a) = [rnd a (46 / 100), rnd a (2 / 100), 0]"
  by (simp_all add: tabla_ejemplo_def)

lemma fila_out_liv:
  "tarifa_usd_km_livianos (fila_out a vl vc d p pc v1 v2 v3 v4 v5 v6) = p"
  "pr_rv_liv (fila_out a vl vc d p pc v1 v2 v3 v4 v5 v6) = v1"
  "Q_rv_liv_veh_dia (fila_out a vl vc d p pc v1 v2 v3 v4 v5 v6) = fmul a vl v1"
  "recaud_liv_usd_dia (fila_out a vl vc d p pc v1 v2 v3 v4 v5 v6)
     = fmul a (fmul a vl v1) (fmul a p d)"
  by (simp_all add: fila_out_def Let_def)

text \<open>The row at tariff 0.25 of the example, before any number is evaluated.\<close>

lemma ejemplo_filas:
  assumes srt: "is_sort_values srt df_prob"
    and x: "map pkm df_prob = [0, rnd a (5 / 10), rnd a (8 / 10)]"
    and rv: "map pr_rv df_prob = [rnd a (46 / 100), rnd a (2 / 100), 0]"
    and v: "v = interp_point a [0, rnd a (5 / 10), rnd a (8 / 10)]
                  [rnd a (46 / 100), rnd a (2 / 100), 0] (rnd a (46 / 100)) 0 (1 / 4)"
  shows "\<exists>rows. calcular_resultados a srt df_prob [0, 1 / 4, 1 / 2] 1000 0 mult_cam 10 = Inr rows
     \<and> length rows = 3
     \<and> tarifa_usd_km_livianos (rows ! 1) = 1 / 4
     \<and> pr_rv_liv (rows ! 1) = v
     \<and> Q_rv_liv_veh_dia (rows ! 1) = fmul a 1000 v
     \<and> recaud_liv_usd_dia (rows ! 1) = fmul a (fmul a 1000 v) (fmul a (1 / 4) 10)"
proof -
  have "sorted_wrt (<) (map pkm df_prob)"
    unfolding x by (cases a) (simp_all add: eval_double)
  from tabla_ordenada_strict [OF srt this] have t: "tabla_ordenada srt df_prob = df_prob" .
  have ne: "tabla_ordenada srt df_prob \<noteq> []" using x t by auto
  have v': "v = interp_point a (map pkm df_prob) (map pr_rv df_prob)
      (map pr_rv df_prob ! 0) (last (map pr_rv df_prob)) (1 / 4)"
    unfolding v x rv by simp
  show ?thesis
    unfolding v' by (simp add: calcular_resultados_rows [OF refl ne] t fila_out_liv)
qed

text \<open>
  Claim C1, as the code has it. For a table with breakpoints 0.0, 0.5, 0.8 and
  \<^verbatim>\<open>pr_rv\<close> 0.46, 0.02, 0.00, the grid 0.0, 0.25, 0.5, \<^verbatim>\<open>tpda_liv = 1000\<close>,
  \<^verbatim>\<open>tpda_cam = 0\<close> and \<^verbatim>\<open>dist_km = 10\<close>, the engine returns three rows, and the row at
  tariff 0.25 has, in exact arithmetic, probability 0.24, quantity 240 and revenue per
  day 600; in binary64 arithmetic it has the doubles printed as 0.24000000000000002,
  240.00000000000003 and 600.0000000000001.
\<close>

theorem calcular_resultados_ejemplo:
  assumes "is_sort_values srt df_prob"
    and "map pkm df_prob = [0, rnd a (5 / 10), rnd a (8 / 10)]"
    and "map pr_rv df_prob = [rnd a (46 / 100), rnd a (2 / 100), 0]"
  shows "\<exists>rows. calcular_resultados a srt df_prob [0, 1 / 4, 1 / 2] 1000 0 mult_cam 10 = Inr rows
     \<and> length rows = 3
     \<and> tarifa_usd_km_livianos (rows ! 1) = 1 / 4
     \<and> (a = Exact \<longrightarrow>
           pr_rv_liv (rows ! 1) = 24 / 100
         \<and> Q_rv_liv_veh_dia (rows ! 1) = 240
         \<and> recaud_liv_usd_dia (rows ! 1) = 600)
     \<and> (a = Double \<longrightarrow>
           pr_rv_liv (rows ! 1) = 8646911284551353 / 36028797018963968
         \<and> Q_rv_liv_veh_dia (rows ! 1) = 8444249301319681 / 35184372088832
         \<and> recaud_liv_usd_dia (rows ! 1) = 5277655813324801 / 8796093022208)"
proof -
  define v where "v = interp_point a [0, rnd a (5 / 10), rnd a (8 / 10)]
      [rnd a (46 / 100), rnd a (2 / 100), 0] (rnd a (46 / 100)) 0 (1 / 4)"
  from ejemplo_filas [OF assms v_def, of mult_cam] obtain rows where rows:
    "calcular_resultados a srt df_prob [0, 1 / 4, 1 / 2] 1000 0 mult_cam 10 = Inr rows"
    "length rows = 3"
    "tarifa_usd_km_livianos (rows ! 1) = 1 / 4"
    "pr_rv_liv (rows ! 1) = v"
    "Q_rv_liv_veh_dia (rows ! 1) = fmul a 1000 v"
    "recaud_liv_usd_dia (rows ! 1) = fmul a (fmul a 1000 v) (fmul a (1 / 4) 10)"
    by blast
  have ex: "v = 24 / 100" if "a = Exact"
    unfolding v_def that
    by (simp add: interp_point_def binary_search_with_guess_def scan_eval fadd_def fsub_def
        fmul_def fdiv_def)
  have db: "v = 8646911284551353 / 36028797018963968" if "a = Double"
    unfolding v_def that
    by (simp add: interp_point_def binary_search_with_guess_def scan_eval eval_double)
  have "pr_rv_liv (rows ! 1) = 24 / 100 \<and> Q_rv_liv_veh_dia (rows ! 1) = 240
      \<and> recaud_liv_usd_dia (rows ! 1) = 600" if "a = Exact"
    unfolding rows ex [OF that] using that by (simp add: fmul_def)
  moreover have "pr_rv_liv (rows ! 1) = 8646911284551353 / 36028797018963968
      \<and> Q_rv_liv_veh_dia (rows ! 1) = 8444249301319681 / 35184372088832
      \<and> recaud_liv_usd_dia (rows ! 1) = 5277655813324801 / 8796093022208" if "a = Double"
    unfolding rows db [OF that] that by (simp add: eval_double)
  ultimately show ?thesis using rows(1,2,3) by blast
qed

theorem calcular_resultados_ejemplo_witness:
  "is_sort_values sort_values_stable (tabla_ejemplo Exact)
   \<and> is_sort_values sort_values_stable (tabla_ejemplo Double)
   \<and> (\<exists>rows. calcular_resultados Exact sort_values_stable (tabla_ejemplo Exact)
                [0, 1 / 4, 1 / 2] 1000 0 6 10 = Inr rows
          \<and> pr_rv_liv (rows ! 1) = 24 / 100
          \<and> Q_rv_liv_veh_dia (rows ! 1) = 240
          \<and> recaud_liv_usd_dia (rows ! 1) = 600)
   \<and> (\<exists>rows. calcular_resultados Double sort_values_stable (tabla_ejemplo Double)
                [0, 1 / 4, 1 / 2] 1000 0 6 10 = Inr rows
          \<and> pr_rv_liv (rows ! 1) = 8646911284551353 / 36028797018963968
          \<and> Q_rv_liv_veh_dia (rows ! 1) = 8444249301319681 / 35184372088832
          \<and> recaud_liv_usd_dia (rows ! 1) = 5277655813324801 / 8796093022208)"
  using calcular_resultados_ejemplo
      [OF is_sort_values_stable tabla_ejemplo_columns, of Exact 6]
    calcular_resultados_ejemplo
      [OF is_sort_values_stable tabla_ejemplo_columns, of Double 6]
    is_sort_values_stable [of "tabla_ejemplo Exact"]
    is_sort_values_stable [of "tabla_ejemplo Double"]
  by blast

text \<open>
  In binary64 arithmetic the three values of that row are not the doubles 0.24, 240 and
  600 of the specification: \<^verbatim>\<open>np.interp\<close> computes
  \<^verbatim>\<open>slope*(x - xp[j]) + fp[j]\<close> with a rounded slope.
\<close>

theorem calcular_resultados_ejemplo_double_inexact:
  "\<not> isl (calcular_resultados Double sort_values_stable (tabla_ejemplo Double)
            [0, 1 / 4, 1 / 2] 1000 0 6 10)
   \<and> pr_rv_liv (projr (calcular_resultados Double sort_values_stable (tabla_ejemplo Double)
            [0, 1 / 4, 1 / 2] 1000 0 6 10) ! 1) \<noteq> round_double (24 / 100)
   \<and> Q_rv_liv_veh_dia (projr (calcular_resultados Double sort_values_stable (tabla_ejemplo Double)
            [0, 1 / 4, 1 / 2] 1000 0 6 10) ! 1) \<noteq> 240
   \<and> recaud_liv_usd_dia (projr (calcular_resultados Double sort_values_stable (tabla_ejemplo Double)
            [0, 1 / 4, 1 / 2] 1000 0 6 10) ! 1) \<noteq> 600"
proof -
  define v where "v = interp_point Double [0, rnd Double (5 / 10), rnd Double (8 / 10)]
      [rnd Double (46 / 100), rnd Double (2 / 100), 0] (rnd Double (46 / 100)) 0 (1 / 4)"
  from ejemplo_filas [OF is_sort_values_stable tabla_ejemplo_columns v_def, of 6]
  obtain rows where rows:
    "calcular_resultados Double sort_values_stable (tabla_ejemplo Double)
       [0, 1 / 4, 1 / 2] 1000 0 6 10 = Inr rows"
    "pr_rv_liv (rows ! 1) = v"
    "Q_rv_liv_veh_dia (rows ! 1) = fmul Double 1000 v"
    "recaud_liv_usd_dia (rows ! 1) = fmul Double (fmul Double 1000 v) (fmul Double (1 / 4) 10)"
    by blast
  have db: "v = 8646911284551353 / 36028797018963968"
    unfolding v_def
    by (simp add: interp_point_def binary_search_with_guess_def scan_eval eval_double)
  have "v \<noteq> round_double (24 / 100)"
    unfolding db by (simp add: eval_double)
  moreover have "fmul Double 1000 v \<noteq> 240"
    unfolding db by (simp add: eval_double)
  moreover have "fmul Double (fmul Double 1000 v) (fmul Double (1 / 4) 10) \<noteq> 600"
    unfolding db by (simp add: eval_double)
  ultimately have "pr_rv_liv (rows ! 1) \<noteq> round_double (24 / 100)
      \<and> Q_rv_liv_veh_dia (rows ! 1) \<noteq> 240 \<and> recaud_liv_usd_dia (rows ! 1) \<noteq> 600"
    by (simp only: rows) simp
  then show ?thesis unfolding rows(1) by simp
qed

section \<open>Annual revenue\<close>






section \<open>Interpolated probabilities and the range of the table\<close>








section \<open>The first maximum\<close>

lemma argmax_loop_first:
  assumes "length pre = i" "mi < i" "pre ! mi = mp"
    and "\<forall>j<i. pre ! j \<le> mp" and "\<forall>j<mi. pre ! j < mp"
  shows "argmax_loop vs i mp mi < length (pre @ vs)
    \<and> (\<forall>j<length (pre @ vs). (pre @ vs) ! j \<le> (pre @ vs) ! argmax_loop vs i mp mi)
    \<and> (\<forall>j<argmax_loop vs i mp mi. (pre @ vs) ! j < (pre @ vs) ! argmax_loop vs i mp mi)"
  using assms
proof (induction vs arbitrary: pre i mp mi)
  case Nil
  then show ?case by simp
next
  case (Cons v vs)
  show ?case
  proof (cases "mp < v")
    case True
    have len: "length (pre @ [v]) = Suc i" using Cons.prems by simp
    have a: "i < Suc i" by simp
    have b: "(pre @ [v]) ! i = v" using Cons.prems by (simp add: nth_append)
    have c: "\<forall>j<Suc i. (pre @ [v]) ! j \<le> v"
      using Cons.prems True by (auto simp: nth_append less_Suc_eq)
    have d: "\<forall>j<i. (pre @ [v]) ! j < v"
      using Cons.prems True by (auto simp: nth_append)
    from Cons.IH [OF len a b c d] True show ?thesis by simp
  next
    case False
    have len: "length (pre @ [v]) = Suc i" using Cons.prems by simp
    have a: "mi < Suc i" using Cons.prems by simp
    have b: "(pre @ [v]) ! mi = mp" using Cons.prems by (simp add: nth_append)
    have c: "\<forall>j<Suc i. (pre @ [v]) ! j \<le> mp"
      using Cons.prems False by (auto simp: nth_append less_Suc_eq)
    have d: "\<forall>j<mi. (pre @ [v]) ! j < mp"
      using Cons.prems by (auto simp: nth_append)
    from Cons.IH [OF len a b c d] False show ?thesis by simp
  qed
qed

lemma idxmax_first:
  assumes "s \<noteq> []"
  shows "\<exists>i. idxmax s = Inr i \<and> i < length s
    \<and> (\<forall>j<length s. s ! j \<le> s ! i) \<and> (\<forall>j<i. s ! j < s ! i)"
proof -
  from assms obtain v vs where s: "s = v # vs" by (cases s) auto
  have "argmax_loop vs 1 v 0 < length ([v] @ vs)
    \<and> (\<forall>j<length ([v] @ vs). ([v] @ vs) ! j \<le> ([v] @ vs) ! argmax_loop vs 1 v 0)
    \<and> (\<forall>j<argmax_loop vs 1 v 0. ([v] @ vs) ! j < ([v] @ vs) ! argmax_loop vs 1 v 0)"
    by (rule argmax_loop_first) auto
  then show ?thesis by (simp add: s idxmax_def)
qed



text \<open>
  Claim C6. On the empty result sequence the finder fails: \<^verbatim>\<open>idxmax\<close> raises
  \<^verbatim>\<open>ValueError\<close>, which is the failure the specification calls EmptyInputError. On
  every non-empty sequence it returns a result.
\<close>

theorem recaudacion_maxima_empty:
  "recaudacion_maxima [] = Inl ValueError
   \<and> (resultados \<noteq> [] \<longrightarrow> (\<exists>r. recaudacion_maxima resultados = Inr r))"
proof -
  have "recaudacion_maxima [] = Inl ValueError"
    by (simp add: recaudacion_maxima_def bind_err_def idxmax_def)
  moreover have "\<exists>r. recaudacion_maxima resultados = Inr r" if "resultados \<noteq> []"
  proof -
    from that have "map recaud_total_usd_dia resultados \<noteq> []" by simp
    from idxmax_first [OF this]
    obtain i where "idxmax (map recaud_total_usd_dia resultados) = Inr i" by blast
    then show ?thesis by (simp add: recaudacion_maxima_def bind_err_def)
  qed
  ultimately show ?thesis by blast
qed

theorem recaudacion_maxima_empty_witness:
  "recaudacion_maxima [] = Inl ValueError
   \<and> filas_empate \<noteq> [] \<and> (\<exists>r. recaudacion_maxima filas_empate = Inr r)"
  using recaudacion_maxima_empty [of filas_empate]
  by (simp add: filas_empate_def)

end
